theory Spec2Isabelle
  imports Main
begin

section \<open>Strings and the standard library\<close>

text \<open>
  A Go string is a sequence of bytes; it is modelled as \<open>string\<close> (a list of 8-bit
  characters). The router uses three things of Go's standard library: \<open>strings.Join\<close>,
  \<open>encoding/json.Marshal\<close> and the package \<open>regexp\<close>. \<open>json.Marshal\<close> is a parameter
  of the model (a function that returns \<open>None\<close> where Go returns an error, with no bytes).
  The part of \<open>regexp\<close> that the router's patterns need is modelled below.
\<close>

datatype error =
  Unsupported    \<comment> \<open>the regular expression lies outside the modelled part of Go's syntax\<close>
| IndexOutOfRange    \<comment> \<open>Go's run-time panic on \<open>matches[i]\<close>\<close>

definition byte :: "char \<Rightarrow> nat" where
  "byte c = of_char c"

fun Join :: "string list \<Rightarrow> string \<Rightarrow> string" where
  "Join [] sep = []"
| "Join [x] sep = x"
| "Join (x # y # ys) sep = x @ sep @ Join (y # ys) sep"

subsection \<open>Runes\<close>

text \<open>
  Go's \<open>regexp\<close> reads its input rune by rune (\<open>utf8.DecodeRuneInString\<close>): a well-formed
  UTF-8 sequence of up to four bytes is one rune, and a byte that starts no well-formed
  sequence is one rune of width 1. \<open>DecodeRuneInString_size\<close> is the width of the first
  rune, following the tables \<open>first\<close> and \<open>acceptRanges\<close> of \<open>unicode/utf8\<close>.
\<close>

definition between :: "nat \<Rightarrow> nat \<Rightarrow> char \<Rightarrow> bool" where
  "between lo hi c = (lo \<le> byte c \<and> byte c \<le> hi)"

fun DecodeRuneInString_size :: "string \<Rightarrow> nat" where
  "DecodeRuneInString_size [] = 0"
| "DecodeRuneInString_size (p0 # ps) =
     (let b = byte p0 in
      if b < 0xC2 \<or> 0xF4 < b then 1
      else
        let sz = (if b < 0xE0 then 2 else if b < 0xF0 then 3 else (4::nat));
            lo = (if b = 0xE0 then 0xA0 else if b = 0xF0 then 0x90 else 0x80);
            hi = (if b = 0xED then 0x9F else if b = 0xF4 then 0x8F else 0xBF)
        in
          if length (p0 # ps) < sz then 1
          else if \<not> between lo hi (ps ! 0) then 1
          else if sz \<le> 2 then 2
          else if \<not> between 0x80 0xBF (ps ! 1) then 1
          else if sz \<le> 3 then 3
          else if \<not> between 0x80 0xBF (ps ! 2) then 1
          else 4)"

subsection \<open>The modelled part of regexp\<close>

text \<open>
  Every pattern the router compiles is \<open>^\<close>, the template with each \<open>:name\<close> replaced by
  \<open>([^/]+)\<close>, and \<open>$\<close>. The model covers the expressions of that shape whose body is
  made of ASCII characters that are literals in Go's syntax, of \<open>.\<close> (any rune but a
  newline) and of the group \<open>([^/]+)\<close>; for any other expression \<open>MustCompile\<close> answers
  \<open>Unsupported\<close>, and nothing is claimed about it. A compiled \<open>Regexp\<close> is the list of
  items between the two anchors. A group carries its name (\<open>''''\<close> when it has none, as
  \<open>SubexpNames\<close> reports it); the parser below only ever builds unnamed groups, since
  that is all the modelled syntax can write.
\<close>

datatype item =
  Lit char    \<comment> \<open>an ASCII literal\<close>
| AnyNotNL    \<comment> \<open>\<open>.\<close>\<close>
| Group string    \<comment> \<open>the capturing group \<open>([^/]+)\<close>, with its name\<close>

datatype Regexp = Regexp (items: "item list")

definition is_meta :: "char \<Rightarrow> bool" where
  "is_meta c = (c \<in> set (CHR 0x5C # ''.+*?()|[]{}^$''))"

definition group_tail :: string where
  "group_tail = ''[^/]+)''"

fun parse_items :: "string \<Rightarrow> error + item list" where
  "parse_items [] = Inr []"
| "parse_items (c # cs) =
     (if c = CHR ''('' then
        (if take 6 cs = group_tail then
           (case parse_items (drop 6 cs) of
              Inl e \<Rightarrow> Inl e
            | Inr its \<Rightarrow> Inr (Group [] # its))
         else Inl Unsupported)
      else if c = CHR ''.'' then
        (case parse_items cs of
           Inl e \<Rightarrow> Inl e
         | Inr its \<Rightarrow> Inr (AnyNotNL # its))
      else if is_meta c \<or> 128 \<le> byte c then Inl Unsupported
      else
        (case parse_items cs of
           Inl e \<Rightarrow> Inl e
         | Inr its \<Rightarrow> Inr (Lit c # its)))"

definition MustCompile :: "string \<Rightarrow> error + Regexp" where
  "MustCompile expr =
     (case expr of
        [] \<Rightarrow> Inl Unsupported
      | c # cs \<Rightarrow>
          if c = CHR ''^'' \<and> cs \<noteq> [] \<and> last cs = CHR ''$'' then
            (case parse_items (butlast cs) of
               Inl e \<Rightarrow> Inl e
             | Inr its \<Rightarrow> Inr (Regexp its))
          else Inl Unsupported)"

text \<open>
  \<open>class_ends s\<close> lists the byte lengths of the prefixes of \<open>s\<close> that \<open>[^/]+\<close> can
  consume: one rune other than \<open>/\<close>, two, and so on, the shortest first.
\<close>

fun class_ends :: "string \<Rightarrow> nat list" where
  "class_ends [] = []"
| "class_ends (c # cs) =
     (if c = CHR ''/'' then []
      else DecodeRuneInString_size (c # cs) #
           map (\<lambda>n. DecodeRuneInString_size (c # cs) + n)
             (class_ends (drop (DecodeRuneInString_size (c # cs) - 1) cs)))"

fun first_some :: "('a \<Rightarrow> 'b option) \<Rightarrow> 'a list \<Rightarrow> 'b option" where
  "first_some f [] = None"
| "first_some f (x # xs) = (case f x of Some y \<Rightarrow> Some y | None \<Rightarrow> first_some f xs)"

text \<open>
  The matcher backtracks as Go's leftmost-first semantics prescribes: \<open>+\<close> is greedy, so a
  group tries its longest candidate first. The result is the list of the groups'
  captures, or \<open>None\<close> when the whole text does not match. The empty item list is the
  closing \<open>$\<close>, which holds at the end of the text only.
\<close>

fun exec :: "item list \<Rightarrow> string \<Rightarrow> string list option" where
  "exec [] s = (if s = [] then Some [] else None)"
| "exec (Lit c # its) s =
     (case s of
        [] \<Rightarrow> None
      | x # xs \<Rightarrow> if x = c then exec its xs else None)"
| "exec (AnyNotNL # its) s =
     (case s of
        [] \<Rightarrow> None
      | x # xs \<Rightarrow>
          if x = CHR 0x0A then None
          else exec its (drop (DecodeRuneInString_size s) s))"
| "exec (Group n # its) s =
     first_some
       (\<lambda>k. case exec its (drop k s) of
               None \<Rightarrow> None
             | Some caps \<Rightarrow> Some (take k s # caps))
       (rev (class_ends s))"

definition MatchString :: "Regexp \<Rightarrow> string \<Rightarrow> bool" where
  "MatchString re s = (exec (items re) s \<noteq> None)"

definition FindStringSubmatch :: "Regexp \<Rightarrow> string \<Rightarrow> string list option" where
  "FindStringSubmatch re s =
     (case exec (items re) s of
        None \<Rightarrow> None
      | Some caps \<Rightarrow> Some (s # caps))"

primrec group_names :: "item list \<Rightarrow> string list" where
  "group_names [] = []"
| "group_names (i # its) =
     (case i of Group n \<Rightarrow> n # group_names its | _ \<Rightarrow> group_names its)"

definition SubexpNames :: "Regexp \<Rightarrow> string list" where
  "SubexpNames re = [] # group_names (items re)"

text \<open>
  \<open>pattern.ReplaceAllString(path, `([^/]+)`)\<close> for the pattern \<open>:([^/]+)\<close>: every
  leftmost, longest run of a colon and at least one following rune other than \<open>/\<close> is
  replaced. No byte of a multi-byte rune is \<open>/\<close>, so the run ends at the next \<open>/\<close> byte
  or at the end of the string.
\<close>

function ReplaceAllString_param :: "string \<Rightarrow> string" where
  "ReplaceAllString_param [] = []"
| "ReplaceAllString_param [c] = [c]"
| "ReplaceAllString_param (c # d # ds) =
     (if c = CHR '':'' \<and> d \<noteq> CHR ''/''
      then ''([^/]+)'' @ ReplaceAllString_param (dropWhile (\<lambda>x. x \<noteq> CHR ''/'') ds)
      else c # ReplaceAllString_param (d # ds))"
  by pat_completeness auto
termination
  by (relation "measure length")
     (auto simp: less_Suc_eq_le intro: le_trans [OF length_dropWhile_le])

section \<open>utils.go\<close>

definition buildPathPattern :: "string \<Rightarrow> error + Regexp" where
  "buildPathPattern path = MustCompile (''^'' @ ReplaceAllString_param path @ ''$'')"

text \<open>
  \<open>Params\<close> is Go's \<open>map[string]string\<close>. \<open>extractParams\<close> walks \<open>SubexpNames\<close> with
  its index and, for every named group, stores \<open>matches[i]\<close>; reading a slice beyond its
  length (a \<open>nil\<close> slice has length 0) panics.
\<close>

type_synonym Params = "string \<rightharpoonup> string"

definition index_slice :: "string list option \<Rightarrow> nat \<Rightarrow> error + string" where
  "index_slice matches i =
     (case matches of
        None \<Rightarrow> Inl IndexOutOfRange
      | Some ms \<Rightarrow> if i < length ms then Inr (ms ! i) else Inl IndexOutOfRange)"

fun extractParams_loop ::
  "(nat \<times> string) list \<Rightarrow> string list option \<Rightarrow> Params \<Rightarrow> error + Params" where
  "extractParams_loop [] matches params = Inr params"
| "extractParams_loop ((i, name) # rest) matches params =
     (if 0 < i \<and> name \<noteq> [] then
        (case index_slice matches i of
           Inl e \<Rightarrow> Inl e
         | Inr v \<Rightarrow> extractParams_loop rest matches (params(name \<mapsto> v)))
      else extractParams_loop rest matches params)"

definition extractParams :: "string \<Rightarrow> Regexp \<Rightarrow> error + Params" where
  "extractParams path pattern =
     extractParams_loop (enumerate 0 (SubexpNames pattern))
       (FindStringSubmatch pattern path) Map.empty"

section \<open>The router\<close>

subsection \<open>Types\<close>

text \<open>
  The request and the response are the structures of \<open>aws-lambda-go/events\<close>; of the
  request, the fields the router reads. A Go map can be \<open>nil\<close>: the response's headers
  are an optional map. Status codes are Go's \<open>int\<close>; the router does no arithmetic on
  them. A \<open>LambdaError\<close> is what its two methods return.
\<close>

record LambdaFunctionURLRequest =
  HTTP_Path :: string
  HTTP_Method :: string
  req_Headers :: "string \<rightharpoonup> string"

record LambdaFunctionURLResponse =
  StatusCode :: int
  resp_Headers :: "(string \<rightharpoonup> string) option"
  Body :: string
  IsBase64Encoded :: bool
  Cookies :: "string list"

record LambdaErrorResponse =
  CodeValue :: int
  MessageValue :: string

text \<open>
  A handler is application code: it may act on the world, so it is a function on a state
  \<open>'s\<close> of the application's choosing. It returns Go's pair of a value \<open>'v\<close> and a
  \<open>LambdaError\<close> that may be \<open>nil\<close>.
\<close>

type_synonym ('v, 's) HandlerFunc =
  "LambdaFunctionURLRequest \<Rightarrow> Params \<Rightarrow> 's \<Rightarrow> ('v \<times> LambdaErrorResponse option) \<times> 's"

record ('v, 's) Route =
  Method :: string
  Pattern :: Regexp
  Handler :: "('v, 's) HandlerFunc"
  Template :: string

record ('v, 's) Router =
  routes :: "('v, 's) Route list"
  Origins :: "string list"
  Methods :: "string list"
  Headers :: "string list"

definition zero_response :: LambdaFunctionURLResponse where
  "zero_response =
     \<lparr>StatusCode = 0, resp_Headers = None, Body = [], IsBase64Encoded = False, Cookies = []\<rparr>"

definition header :: "(string \<rightharpoonup> string) option \<Rightarrow> string \<Rightarrow> string option" where
  "header hs k = (case hs of None \<Rightarrow> None | Some m \<Rightarrow> m k)"

definition request_origin :: "LambdaFunctionURLRequest \<Rightarrow> string" where
  "request_origin req = (case req_Headers req ''origin'' of None \<Rightarrow> [] | Some v \<Rightarrow> v)"

subsection \<open>Registration\<close>

definition NewRouter :: "('v, 's) Router" where
  "NewRouter = \<lparr>routes = [], Origins = [''*''], Methods = [''*''], Headers = [''*'']\<rparr>"

definition AddRoute ::
  "string \<Rightarrow> string \<Rightarrow> ('v, 's) HandlerFunc \<Rightarrow> ('v, 's) Router \<Rightarrow> error + ('v, 's) Router" where
  "AddRoute method path handler r =
     (case buildPathPattern path of
        Inl e \<Rightarrow> Inl e
      | Inr pattern \<Rightarrow>
          Inr (r\<lparr>routes := routes r @
            [\<lparr>Method = method, Pattern = pattern, Handler = handler, Template = path\<rparr>]\<rparr>))"

definition Get :: "string \<Rightarrow> ('v, 's) HandlerFunc \<Rightarrow> ('v, 's) Router \<Rightarrow> error + ('v, 's) Router" where
  "Get path handler r = AddRoute ''GET'' path handler r"

definition Post :: "string \<Rightarrow> ('v, 's) HandlerFunc \<Rightarrow> ('v, 's) Router \<Rightarrow> error + ('v, 's) Router" where
  "Post path handler r = AddRoute ''POST'' path handler r"

definition Put :: "string \<Rightarrow> ('v, 's) HandlerFunc \<Rightarrow> ('v, 's) Router \<Rightarrow> error + ('v, 's) Router" where
  "Put path handler r = AddRoute ''PUT'' path handler r"

definition Delete :: "string \<Rightarrow> ('v, 's) HandlerFunc \<Rightarrow> ('v, 's) Router \<Rightarrow> error + ('v, 's) Router" where
  "Delete path handler r = AddRoute ''DELETE'' path handler r"

subsection \<open>CORS\<close>

fun origin_listed :: "string list \<Rightarrow> string \<Rightarrow> bool" where
  "origin_listed [] origin = False"
| "origin_listed (allowedOrigin # rest) origin =
     (if allowedOrigin = origin then True else origin_listed rest origin)"

definition isOriginAllowed :: "('v, 's) Router \<Rightarrow> string \<Rightarrow> bool" where
  "isOriginAllowed r origin =
     (if length (Origins r) = 1 \<and> Origins r ! 0 = ''*'' then True
      else origin_listed (Origins r) origin)"

definition corsPreflightResponse ::
  "('v, 's) Router \<Rightarrow> LambdaFunctionURLRequest \<Rightarrow> LambdaFunctionURLResponse" where
  "corsPreflightResponse r req =
     (let origin = request_origin req in
      if \<not> isOriginAllowed r origin then
        zero_response\<lparr>StatusCode := 403, Body := ''Origin not allowed''\<rparr>
      else
        zero_response\<lparr>StatusCode := 200,
          resp_Headers := Some (Map.empty
            (''Access-Control-Allow-Origin'' \<mapsto> origin,
             ''Access-Control-Allow-Methods'' \<mapsto> Join (Methods r) '', '',
             ''Access-Control-Allow-Headers'' \<mapsto> Join (Headers r) '', ''))\<rparr>)"

definition attachCORSHeaders ::
  "('v, 's) Router \<Rightarrow> LambdaFunctionURLResponse \<Rightarrow> LambdaFunctionURLRequest \<Rightarrow>
     LambdaFunctionURLResponse" where
  "attachCORSHeaders r response req =
     (let origin0 = request_origin req;
          origin = (if origin0 = [] \<or> \<not> isOriginAllowed r origin0 then ''*'' else origin0);
          hs = (case resp_Headers response of None \<Rightarrow> Map.empty | Some m \<Rightarrow> m)
      in response\<lparr>resp_Headers := Some (hs
           (''Access-Control-Allow-Origin'' \<mapsto> origin,
            ''Access-Control-Allow-Methods'' \<mapsto> Join (Methods r) '', '',
            ''Access-Control-Allow-Headers'' \<mapsto> Join (Headers r) '', ''))\<rparr>)"

subsection \<open>Responses\<close>

definition ErrorResponse :: "LambdaErrorResponse \<Rightarrow> LambdaFunctionURLResponse" where
  "ErrorResponse err =
     zero_response\<lparr>StatusCode := CodeValue err, Body := ''Error: '' @ MessageValue err\<rparr>"

text \<open>
  \<open>body, _ := json.Marshal(data)\<close>: the error is dropped, and on an error Go's
  \<open>json.Marshal\<close> returns no bytes, so the body is the empty string.
\<close>

definition SuccessResponse :: "('v \<Rightarrow> string option) \<Rightarrow> 'v \<Rightarrow> LambdaFunctionURLResponse" where
  "SuccessResponse json_Marshal data =
     (let body = (case json_Marshal data of None \<Rightarrow> [] | Some b \<Rightarrow> b) in
      zero_response\<lparr>StatusCode := 200,
        resp_Headers := Some (Map.empty(''Content-Type'' \<mapsto> ''application/json'')),
        Body := body\<rparr>)"

subsection \<open>Dispatch\<close>

text \<open>
  The loop over the routes of \<open>HandleRequest\<close> ends in one of three ways: a panic, a
  \<open>return\<close> out of \<open>HandleRequest\<close> (the handler's error), or falling out of the loop
  (after \<open>break\<close>, or at the end of the table) with the current value of the variable
  \<open>response\<close>.
\<close>

datatype loop_exit =
  Returned LambdaFunctionURLResponse
| Fell LambdaFunctionURLResponse

fun route_loop ::
  "('v \<Rightarrow> string option) \<Rightarrow> ('v, 's) Route list \<Rightarrow> LambdaFunctionURLRequest \<Rightarrow> 's \<Rightarrow>
     (error + loop_exit) \<times> 's" where
  "route_loop json_Marshal [] req s = (Inr (Fell zero_response), s)"
| "route_loop json_Marshal (route # rest) req s =
     (if Method route = HTTP_Method req \<and> MatchString (Pattern route) (HTTP_Path req) then
        (case extractParams (HTTP_Path req) (Pattern route) of
           Inl e \<Rightarrow> (Inl e, s)
         | Inr params \<Rightarrow>
             (case Handler route req params s of
                ((data, Some err), s') \<Rightarrow> (Inr (Returned (ErrorResponse err)), s')
              | ((data, None), s') \<Rightarrow> (Inr (Fell (SuccessResponse json_Marshal data)), s')))
      else route_loop json_Marshal rest req s)"

definition HandleRequest ::
  "('v \<Rightarrow> string option) \<Rightarrow> ('v, 's) Router \<Rightarrow> LambdaFunctionURLRequest \<Rightarrow> 's \<Rightarrow>
     (error + LambdaFunctionURLResponse) \<times> 's" where
  "HandleRequest json_Marshal r req s =
     (if HTTP_Method req = ''OPTIONS'' then (Inr (corsPreflightResponse r req), s)
      else
        (case route_loop json_Marshal (routes r) req s of
           (Inl e, s') \<Rightarrow> (Inl e, s')
         | (Inr (Returned response), s') \<Rightarrow> (Inr response, s')
         | (Inr (Fell response), s') \<Rightarrow>
             (let response' =
                (if StatusCode response = 0
                 then zero_response\<lparr>StatusCode := 404, Body := ''Route not found''\<rparr>
                 else response)
              in (Inr (attachCORSHeaders r response' req), s'))))"

text \<open>The condition under which the loop takes a route.\<close>

definition selects :: "('v, 's) Route \<Rightarrow> LambdaFunctionURLRequest \<Rightarrow> bool" where
  "selects route req =
     (Method route = HTTP_Method req \<and> MatchString (Pattern route) (HTTP_Path req))"

text \<open>
  \<open>AddRoute\<close> is the only way into the table (the field \<open>routes\<close> is not exported), so
  every route of a router carries the pattern compiled from its own template.
\<close>

definition compiled :: "('v, 's) Route \<Rightarrow> bool" where
  "compiled route = (buildPathPattern (Template route) = Inr (Pattern route))"

section \<open>What the specification says of templates\<close>

text \<open>
  The specification describes matching by segments: a path is cut at every \<open>/\<close>, a
  template segment that starts with the prefix \<open>:\<close> is a parameter segment and stands
  for any one non-empty segment, and every other template segment is a literal that the
  path's segment must equal. These definitions follow the specification's words; the
  code has no such function, and the theorems below compare it with \<open>buildPathPattern\<close>.
\<close>

fun segments :: "string \<Rightarrow> string list" where
  "segments [] = [[]]"
| "segments (c # cs) =
     (if c = CHR ''/'' then [] # segments cs
      else (case segments cs of
              [] \<Rightarrow> [[c]]
            | seg # segs \<Rightarrow> (c # seg) # segs))"

definition is_param_segment :: "string \<Rightarrow> bool" where
  "is_param_segment seg = (case seg of [] \<Rightarrow> False | c # _ \<Rightarrow> c = CHR '':'')"

definition segment_accepts :: "string \<Rightarrow> string \<Rightarrow> bool" where
  "segment_accepts tseg pseg = (if is_param_segment tseg then pseg \<noteq> [] else pseg = tseg)"

definition template_accepts :: "string \<Rightarrow> string \<Rightarrow> bool" where
  "template_accepts template path =
     (length (segments path) = length (segments template) \<and>
      list_all2 segment_accepts (segments template) (segments path))"

text \<open>
  In a plain template every parameter segment is a colon followed by a name of at least
  one character, and every literal segment is written in ASCII characters that are
  literals to \<open>regexp\<close> and has no colon.
\<close>

definition plain_char :: "char \<Rightarrow> bool" where
  "plain_char c = (byte c < 128 \<and> \<not> is_meta c)"

definition plain_segment :: "string \<Rightarrow> bool" where
  "plain_segment seg =
     (if is_param_segment seg then 2 \<le> length seg
      else list_all plain_char seg \<and> CHR '':'' \<notin> set seg)"

definition plain_template :: "string \<Rightarrow> bool" where
  "plain_template template = list_all plain_segment (segments template)"

text \<open>The items that a plain template compiles to, segment by segment.\<close>

definition segment_items :: "string \<Rightarrow> item list" where
  "segment_items seg = (if is_param_segment seg then [Group []] else map Lit seg)"

fun template_items :: "string list \<Rightarrow> item list" where
  "template_items [] = []"
| "template_items [seg] = segment_items seg"
| "template_items (seg # seg' # segs) =
     segment_items seg @ Lit (CHR ''/'') # template_items (seg' # segs)"

section \<open>Properties of the matcher\<close>

lemma size_bounds:
  "1 \<le> DecodeRuneInString_size (c # cs) \<and> DecodeRuneInString_size (c # cs) \<le> Suc (length cs)"
  by (cases cs) (auto simp: Let_def Suc_le_eq)

lemma small_index:
  "(i < Suc 0) = (i = 0)" "(i < 2) = (i = 0 \<or> i = Suc 0)" "(i < 3) = (i = 0 \<or> i = Suc 0 \<or> i = 2)"
  by auto

lemma size_tail_no_slash:
  "CHR ''/'' \<notin> set (take (DecodeRuneInString_size (c # cs) - 1) cs)"
proof
  assume "CHR ''/'' \<in> set (take (DecodeRuneInString_size (c # cs) - 1) cs)"
  then obtain i where i: "i < DecodeRuneInString_size (c # cs) - 1" "i < length cs" "cs ! i = CHR ''/''"
    by (auto simp: in_set_conv_nth)
  then show False
    by (auto simp: Let_def between_def byte_def small_index split: if_splits)
qed

lemma first_some_None: "(first_some f xs = None) = (\<forall>x\<in>set xs. f x = None)"
  by (induction xs) (auto split: option.splits)

lemma class_ends_sound:
  "k \<in> set (class_ends s) \<Longrightarrow> 1 \<le> k \<and> k \<le> length s \<and> CHR ''/'' \<notin> set (take k s)"
proof (induction s arbitrary: k rule: class_ends.induct)
  case 1
  then show ?case by simp
next
  case (2 c cs)
  let ?w = "DecodeRuneInString_size (c # cs)"
  from "2.prems" have c: "c \<noteq> CHR ''/''" by (auto split: if_splits)
  have w: "1 \<le> ?w" "?w \<le> Suc (length cs)" using size_bounds [of c cs] by auto
  have head: "CHR ''/'' \<notin> set (take ?w (c # cs))"
    using c size_tail_no_slash [of c cs] w by (cases ?w) auto
  from "2.prems" c consider "k = ?w" | j where "j \<in> set (class_ends (drop (?w - 1) cs))" "k = ?w + j"
    by auto
  then show ?case
  proof cases
    case 1
    then show ?thesis using w head by simp
  next
    case 2
    from "2.IH" [OF c 2(1)] have j: "1 \<le> j" "j \<le> length (drop (?w - 1) cs)"
      "CHR ''/'' \<notin> set (take j (drop (?w - 1) cs))" by auto
    have split: "take k (c # cs) = take ?w (c # cs) @ take j (drop ?w (c # cs))"
      using 2(2) by (simp add: take_add)
    have "drop ?w (c # cs) = drop (?w - 1) cs" using w by (cases ?w) auto
    with split j head 2(2) w show ?thesis by auto
  qed
qed



lemma class_ends_max:
  "s \<noteq> [] \<Longrightarrow> hd s \<noteq> CHR ''/'' \<Longrightarrow>
   length (takeWhile (\<lambda>x. x \<noteq> CHR ''/'') s) \<in> set (class_ends s)"
proof (induction s rule: class_ends.induct)
  case 1
  then show ?case by simp
next
  case (2 c cs)
  let ?w = "DecodeRuneInString_size (c # cs)"
  let ?rest = "drop (?w - 1) cs"
  from "2.prems" have c: "c \<noteq> CHR ''/''" by simp
  have w: "1 \<le> ?w" "?w \<le> Suc (length cs)" using size_bounds [of c cs] by auto
  have head: "\<forall>x\<in>set (take ?w (c # cs)). x \<noteq> CHR ''/''"
    using c size_tail_no_slash [of c cs] w by (cases ?w) auto
  have rest: "drop ?w (c # cs) = ?rest" using w by (cases ?w) auto
  have "takeWhile (\<lambda>x. x \<noteq> CHR ''/'') (take ?w (c # cs) @ drop ?w (c # cs))
      = take ?w (c # cs) @ takeWhile (\<lambda>x. x \<noteq> CHR ''/'') (drop ?w (c # cs))"
    using head by (intro takeWhile_append2) blast
  then have "takeWhile (\<lambda>x. x \<noteq> CHR ''/'') (c # cs)
      = take ?w (c # cs) @ takeWhile (\<lambda>x. x \<noteq> CHR ''/'') (drop ?w (c # cs))"
    unfolding append_take_drop_id .
  then have "takeWhile (\<lambda>x. x \<noteq> CHR ''/'') (c # cs)
      = take ?w (c # cs) @ takeWhile (\<lambda>x. x \<noteq> CHR ''/'') ?rest"
    unfolding rest .
  then have len: "length (takeWhile (\<lambda>x. x \<noteq> CHR ''/'') (c # cs))
      = ?w + length (takeWhile (\<lambda>x. x \<noteq> CHR ''/'') ?rest)"
    using w by simp
  show ?case
  proof (cases "?rest = [] \<or> hd ?rest = CHR ''/''")
    case True
    then have "takeWhile (\<lambda>x. x \<noteq> CHR ''/'') ?rest = []" by (cases ?rest) auto
    with len c show ?thesis by simp
  next
    case False
    with "2.IH" [OF c] have "length (takeWhile (\<lambda>x. x \<noteq> CHR ''/'') ?rest) \<in> set (class_ends ?rest)"
      by simp
    with len c show ?thesis by simp
  qed
qed





lemma exec_Group_eq:
  "(exec (Group n # its) s \<noteq> None) = (\<exists>k\<in>set (class_ends s). exec its (drop k s) \<noteq> None)"
  by (auto simp: first_some_None split: option.splits)

lemma exec_stop:
  assumes "its = [] \<or> (\<exists>its'. its = Lit (CHR ''/'') # its')" and "exec its x \<noteq> None"
  shows "x = [] \<or> hd x = CHR ''/''"
  using assms by (cases x) (auto split: if_splits)


lemma exec_Group_iff:
  assumes shape: "its = [] \<or> (\<exists>its'. its = Lit (CHR ''/'') # its')"
  shows "(exec (Group n # its) s \<noteq> None)
    = (s \<noteq> [] \<and> hd s \<noteq> CHR ''/'' \<and> exec its (dropWhile (\<lambda>x. x \<noteq> CHR ''/'') s) \<noteq> None)"
proof
  assume "exec (Group n # its) s \<noteq> None"
  then obtain k where k: "k \<in> set (class_ends s)" "exec its (drop k s) \<noteq> None"
    unfolding exec_Group_eq by blast
  from class_ends_sound [OF k(1)] have b: "1 \<le> k" "k \<le> length s"
    "\<forall>x\<in>set (take k s). x \<noteq> CHR ''/''" by auto
  from exec_stop [OF shape k(2)] have dw: "dropWhile (\<lambda>x. x \<noteq> CHR ''/'') (drop k s) = drop k s"
    by (cases "drop k s") auto
  have "dropWhile (\<lambda>x. x \<noteq> CHR ''/'') (take k s @ drop k s)
      = dropWhile (\<lambda>x. x \<noteq> CHR ''/'') (drop k s)"
    using b(3) by (intro dropWhile_append2) blast
  then have "dropWhile (\<lambda>x. x \<noteq> CHR ''/'') s = dropWhile (\<lambda>x. x \<noteq> CHR ''/'') (drop k s)"
    unfolding append_take_drop_id .
  then have d: "dropWhile (\<lambda>x. x \<noteq> CHR ''/'') s = drop k s"
    unfolding dw .
  have ne: "s \<noteq> []" using b(1,2) by (cases s) simp_all
  have "hd s \<in> set (take k s)" using b(1) ne by (cases s; cases k) simp_all
  then have "hd s \<noteq> CHR ''/''" using b(3) by blast
  with ne d k(2) show "s \<noteq> [] \<and> hd s \<noteq> CHR ''/'' \<and> exec its (dropWhile (\<lambda>x. x \<noteq> CHR ''/'') s) \<noteq> None"
    by simp
next
  assume a: "s \<noteq> [] \<and> hd s \<noteq> CHR ''/'' \<and> exec its (dropWhile (\<lambda>x. x \<noteq> CHR ''/'') s) \<noteq> None"
  then have "length (takeWhile (\<lambda>x. x \<noteq> CHR ''/'') s) \<in> set (class_ends s)"
    using class_ends_max by blast
  moreover have "exec its (drop (length (takeWhile (\<lambda>x. x \<noteq> CHR ''/'') s)) s) \<noteq> None"
    using a unfolding dropWhile_eq_drop [symmetric] by blast
  ultimately show "exec (Group n # its) s \<noteq> None" unfolding exec_Group_eq by blast
qed


lemma exec_lits_iff:
  "(exec (map Lit seg @ its) s \<noteq> None) = (\<exists>r. s = seg @ r \<and> exec its r \<noteq> None)"
  by (induction seg arbitrary: s) (auto split: list.splits)



lemma Replace_cons: "c \<noteq> CHR '':'' \<Longrightarrow> ReplaceAllString_param (c # xs) = c # ReplaceAllString_param xs"
  by (cases xs) simp_all

lemma Replace_literal:
  "CHR '':'' \<notin> set seg \<Longrightarrow> ReplaceAllString_param (seg @ xs) = seg @ ReplaceAllString_param xs"
  by (induction seg) (auto simp: Replace_cons)

lemma dropWhile_stop:
  "rest = [] \<or> hd rest = CHR ''/'' \<Longrightarrow> CHR ''/'' \<notin> set n \<Longrightarrow>
   dropWhile (\<lambda>x. x \<noteq> CHR ''/'') (n @ rest) = rest"
  by (induction n) (cases rest; auto)+

lemma Replace_param:
  assumes "n \<noteq> []" and "CHR ''/'' \<notin> set n" and "rest = [] \<or> hd rest = CHR ''/''"
  shows "ReplaceAllString_param (CHR '':'' # n @ rest) = ''([^/]+)'' @ ReplaceAllString_param rest"
proof -
  from assms(1) obtain d ds where n: "n = d # ds" by (cases n) auto
  with assms(2) have d: "d \<noteq> CHR ''/''" and ds: "CHR ''/'' \<notin> set ds" by auto
  have "dropWhile (\<lambda>x. x \<noteq> CHR ''/'') (ds @ rest) = rest"
    using assms(3) ds by (rule dropWhile_stop)
  with d show ?thesis unfolding n by simp
qed

lemma plain_charD:
  "plain_char c \<Longrightarrow> c \<noteq> CHR ''('' \<and> c \<noteq> CHR ''.'' \<and> \<not> is_meta c \<and> \<not> 128 \<le> byte c"
  by (auto simp: plain_char_def is_meta_def)

lemma parse_literal:
  "list_all plain_char seg \<Longrightarrow> parse_items xs = Inr its \<Longrightarrow>
   parse_items (seg @ xs) = Inr (map Lit seg @ its)"
  by (induction seg) (simp_all add: plain_charD)

lemma parse_group:
  "parse_items xs = Inr its \<Longrightarrow> parse_items (''([^/]+)'' @ xs) = Inr (Group [] # its)"
  by (simp add: group_tail_def)

lemma plain_slash: "plain_char (CHR ''/'')"
  by (simp add: plain_char_def is_meta_def byte_def)

lemma param_segmentD:
  "is_param_segment seg \<Longrightarrow> 2 \<le> length seg \<Longrightarrow> \<exists>n. seg = CHR '':'' # n \<and> n \<noteq> []"
  by (cases seg) (auto simp: is_param_segment_def)

lemma parse_template:
  "tsegs \<noteq> [] \<Longrightarrow> \<forall>seg\<in>set tsegs. plain_segment seg \<and> CHR ''/'' \<notin> set seg \<Longrightarrow>
   parse_items (ReplaceAllString_param (Join tsegs ''/'')) = Inr (template_items tsegs)"
proof (induction tsegs rule: template_items.induct)
  case 1
  then show ?case by simp
next
  case (2 seg)
  then have ps: "plain_segment seg" and ns: "CHR ''/'' \<notin> set seg" by auto
  show ?case
  proof (cases "is_param_segment seg")
    case True
    with ps obtain n where n: "seg = CHR '':'' # n" "n \<noteq> []"
      using param_segmentD by (auto simp: plain_segment_def)
    with ns have "CHR ''/'' \<notin> set n" by simp
    from Replace_param [OF n(2) this, of "[]"]
    have "ReplaceAllString_param seg = ''([^/]+)''" using n by simp
    then show ?thesis using True parse_group [of "[]" "[]"] by (simp add: segment_items_def)
  next
    case False
    with ps have "CHR '':'' \<notin> set seg" and pc: "list_all plain_char seg"
      by (auto simp: plain_segment_def)
    from Replace_literal [OF this(1), of "[]"] have "ReplaceAllString_param seg = seg" by simp
    then show ?thesis using False parse_literal [OF pc, of "[]" "[]"] by (simp add: segment_items_def)
  qed
next
  case (3 seg y ys)
  then have ps: "plain_segment seg" and ns: "CHR ''/'' \<notin> set seg" by auto
  from 3 have IH: "parse_items (ReplaceAllString_param (Join (y # ys) ''/'')) = Inr (template_items (y # ys))"
    by simp
  let ?J = "Join (y # ys) ''/''"
  have tail: "parse_items (CHR ''/'' # ReplaceAllString_param ?J) = Inr (Lit (CHR ''/'') # template_items (y # ys))"
    using parse_literal [of "''/''", OF _ IH] plain_slash by simp
  have J: "Join (seg # y # ys) ''/'' = seg @ CHR ''/'' # ?J" by simp
  show ?case
  proof (cases "is_param_segment seg")
    case True
    with ps obtain n where n: "seg = CHR '':'' # n" "n \<noteq> []"
      using param_segmentD by (auto simp: plain_segment_def)
    with ns have "CHR ''/'' \<notin> set n" by simp
    from Replace_param [OF n(2) this, of "CHR ''/'' # ?J"]
    have "ReplaceAllString_param (seg @ CHR ''/'' # ?J) = ''([^/]+)'' @ CHR ''/'' # ReplaceAllString_param ?J"
      using n by (simp add: Replace_cons)
    then show ?thesis unfolding J using True parse_group [OF tail] by (simp add: segment_items_def)
  next
    case False
    with ps have nc: "CHR '':'' \<notin> set seg" and pc: "list_all plain_char seg"
      by (auto simp: plain_segment_def)
    have "ReplaceAllString_param (seg @ CHR ''/'' # ?J) = seg @ CHR ''/'' # ReplaceAllString_param ?J"
      using Replace_literal [OF nc] by (simp add: Replace_cons)
    then show ?thesis unfolding J using False parse_literal [OF pc tail] by (simp add: segment_items_def)
  qed
qed




lemma segments_ne: "segments p \<noteq> []"
  by (induction p) (auto split: list.splits)

lemma segments_whole: "CHR ''/'' \<notin> set p \<Longrightarrow> segments p = [p]"
  by (induction p) auto

lemma segments_cut: "CHR ''/'' \<notin> set a \<Longrightarrow> segments (a @ CHR ''/'' # r) = a # segments r"
  by (induction a) auto

lemma path_cases:
  obtains "CHR ''/'' \<notin> set p" | a r where "p = a @ CHR ''/'' # r" "CHR ''/'' \<notin> set a"
  using split_list_first [of "CHR ''/''" p] by blast

lemma dropWhile_whole: "CHR ''/'' \<notin> set p \<Longrightarrow> dropWhile (\<lambda>x. x \<noteq> CHR ''/'') p = []"
  by (induction p) auto

lemma dropWhile_cut:
  "CHR ''/'' \<notin> set a \<Longrightarrow> dropWhile (\<lambda>x. x \<noteq> CHR ''/'') (a @ CHR ''/'' # r) = CHR ''/'' # r"
  by (induction a) auto

lemma cut_unique:
  assumes "CHR ''/'' \<notin> set a" "CHR ''/'' \<notin> set b" "a @ CHR ''/'' # r = b @ CHR ''/'' # r'"
  shows "a = b \<and> r = r'"
proof -
  have "segments (a @ CHR ''/'' # r) = segments (b @ CHR ''/'' # r')" using assms(3) by simp
  then have "a = b" using assms(1,2) by (simp add: segments_cut)
  with assms(3) show ?thesis by simp
qed

lemma exec_literal_last:
  assumes "CHR ''/'' \<notin> set seg"
  shows "(exec (map Lit seg) p \<noteq> None) = list_all2 (\<lambda>t q. q = t) [seg] (segments p)"
proof -
  have L: "(exec (map Lit seg) p \<noteq> None) = (p = seg)"
    using exec_lits_iff [of seg "[]" p] by auto
  show ?thesis
  proof (cases p rule: path_cases)
    case 1
    then show ?thesis unfolding L by (simp add: segments_whole)
  next
    case (2 a r)
    then have "p \<noteq> seg" using assms by auto
    then show ?thesis unfolding L using 2 by (simp add: segments_cut segments_ne)
  qed
qed

lemma exec_param_last:
  "(exec [Group n] p \<noteq> None) = list_all2 (\<lambda>t q. q \<noteq> []) [seg] (segments p)"
proof -
  have G: "(exec [Group n] p \<noteq> None)
      = (p \<noteq> [] \<and> hd p \<noteq> CHR ''/'' \<and> dropWhile (\<lambda>x. x \<noteq> CHR ''/'') p = [])"
    using exec_Group_iff [of "[]" n p] by simp
  show ?thesis
  proof (cases p rule: path_cases)
    case 1
    then have "p \<noteq> [] \<Longrightarrow> hd p \<noteq> CHR ''/''" by (cases p) auto
    then show ?thesis unfolding G using 1 by (auto simp: segments_whole dropWhile_whole)
  next
    case (2 a r)
    then show ?thesis unfolding G by (simp add: segments_cut segments_ne dropWhile_cut)
  qed
qed




lemma list_all2_single: "list_all2 P [x] ys = (\<exists>y. ys = [y] \<and> P x y)"
  by (simp add: list_all2_Cons1)

lemma exec_template:
  "tsegs \<noteq> [] \<Longrightarrow> \<forall>seg\<in>set tsegs. plain_segment seg \<and> CHR ''/'' \<notin> set seg \<Longrightarrow>
   (exec (template_items tsegs) p \<noteq> None) = list_all2 segment_accepts tsegs (segments p)"
proof (induction tsegs arbitrary: p rule: template_items.induct)
  case 1
  then show ?case by simp
next
  case (2 seg)
  then have ns: "CHR ''/'' \<notin> set seg" by simp
  show ?case
  proof (cases "is_param_segment seg")
    case True
    then show ?thesis
      using exec_param_last [of "[]" p seg]
      by (simp add: segment_items_def segment_accepts_def list_all2_single)
  next
    case False
    then show ?thesis
      using exec_literal_last [OF ns, of p]
      by (simp add: segment_items_def segment_accepts_def list_all2_single)
  qed
next
  case (3 seg y ys)
  then have ns: "CHR ''/'' \<notin> set seg" by simp
  from 3 have IH: "(exec (template_items (y # ys)) q \<noteq> None)
      = list_all2 segment_accepts (y # ys) (segments q)" for q
    by simp
  show ?case
  proof (cases "is_param_segment seg")
    case True
    have G: "(exec (template_items (seg # y # ys)) p \<noteq> None)
        = (p \<noteq> [] \<and> hd p \<noteq> CHR ''/'' \<and>
           exec (Lit (CHR ''/'') # template_items (y # ys)) (dropWhile (\<lambda>x. x \<noteq> CHR ''/'') p) \<noteq> None)"
      using True exec_Group_iff [of "Lit (CHR ''/'') # template_items (y # ys)" "[]" p]
      by (simp add: segment_items_def)
    show ?thesis
    proof (cases p rule: path_cases)
      case 1
      then show ?thesis unfolding G by (simp add: segments_whole dropWhile_whole)
    next
      case (2 a r)
      have hd: "hd (a @ CHR ''/'' # r) \<noteq> CHR ''/'' \<longleftrightarrow> a \<noteq> []" using 2(2) by (cases a) auto
      have sa: "segment_accepts seg a = (a \<noteq> [])" using True by (simp add: segment_accepts_def)
      show ?thesis unfolding G using 2
        by (simp add: segments_cut dropWhile_cut IH sa hd del: not_None_eq)
    qed
  next
    case False
    have L: "(exec (template_items (seg # y # ys)) p \<noteq> None)
        = (\<exists>r. p = seg @ CHR ''/'' # r \<and> exec (template_items (y # ys)) r \<noteq> None)"
    proof -
      have "(exec (template_items (seg # y # ys)) p \<noteq> None)
          = (\<exists>r. p = seg @ r \<and> exec (Lit (CHR ''/'') # template_items (y # ys)) r \<noteq> None)"
        using False exec_lits_iff [of seg "Lit (CHR ''/'') # template_items (y # ys)" p]
        by (simp add: segment_items_def)
      also have "\<dots> = (\<exists>r. p = seg @ CHR ''/'' # r \<and> exec (template_items (y # ys)) r \<noteq> None)"
      proof -
        have "(exec (Lit (CHR ''/'') # template_items (y # ys)) r \<noteq> None)
            = (\<exists>r'. r = CHR ''/'' # r' \<and> exec (template_items (y # ys)) r' \<noteq> None)" for r
          by (cases r) (simp_all del: not_None_eq)
        then show ?thesis by (simp del: not_None_eq) blast
      qed
      finally show ?thesis .
    qed
    show ?thesis
    proof (cases p rule: path_cases)
      case 1
      then have "\<And>r. p \<noteq> seg @ CHR ''/'' # r" by auto
      then show ?thesis unfolding L using 1 by (simp add: segments_whole)
    next
      case (2 a r)
      have "(\<exists>r'. p = seg @ CHR ''/'' # r' \<and> exec (template_items (y # ys)) r' \<noteq> None)
          = (a = seg \<and> exec (template_items (y # ys)) r \<noteq> None)"
      proof
        assume "\<exists>r'. p = seg @ CHR ''/'' # r' \<and> exec (template_items (y # ys)) r' \<noteq> None"
        then obtain r' where r': "p = seg @ CHR ''/'' # r'" "exec (template_items (y # ys)) r' \<noteq> None"
          by blast
        from r'(1) 2(1) have "a @ CHR ''/'' # r = seg @ CHR ''/'' # r'" by simp
        from cut_unique [OF 2(2) ns this] r'(2)
        show "a = seg \<and> exec (template_items (y # ys)) r \<noteq> None" by simp
      next
        assume "a = seg \<and> exec (template_items (y # ys)) r \<noteq> None"
        with 2(1) show "\<exists>r'. p = seg @ CHR ''/'' # r' \<and> exec (template_items (y # ys)) r' \<noteq> None"
          by blast
      qed
      moreover have "segment_accepts seg a = (a = seg)" using False by (simp add: segment_accepts_def)
      ultimately show ?thesis unfolding L using 2
        by (simp add: segments_cut IH del: not_None_eq)
    qed
  qed
qed

lemma Join_cons_head: "Join ((c # seg) # segs) sep = c # Join (seg # segs) sep"
  by (cases segs) simp_all

lemma Join_segments: "Join (segments t) ''/'' = t"
proof (induction t)
  case Nil
  then show ?case by simp
next
  case (Cons c cs)
  obtain seg segs where s: "segments cs = seg # segs" using segments_ne [of cs] by (cases "segments cs") auto
  show ?case using Cons s by (simp add: Join_cons_head)
qed

lemma segments_no_slash: "seg \<in> set (segments t) \<Longrightarrow> CHR ''/'' \<notin> set seg"
  by (induction t arbitrary: seg) (auto split: list.splits if_splits)

lemma MustCompile_anchored:
  "MustCompile (''^'' @ body @ ''$'') = (case parse_items body of Inl e \<Rightarrow> Inl e | Inr its \<Rightarrow> Inr (Regexp its))"
  by (simp add: MustCompile_def)

lemma plain_template_compiles:
  assumes "plain_template t"
  shows "buildPathPattern t = Inr (Regexp (template_items (segments t)))"
proof -
  have "\<forall>seg\<in>set (segments t). plain_segment seg \<and> CHR ''/'' \<notin> set seg"
    using assms segments_no_slash by (auto simp: plain_template_def list_all_iff)
  from parse_template [OF segments_ne this]
  show ?thesis unfolding buildPathPattern_def MustCompile_anchored Join_segments by simp
qed

lemma plain_template_matches:
  assumes "plain_template t"
  shows "MatchString (Regexp (template_items (segments t))) p = template_accepts t p"
proof -
  have "\<forall>seg\<in>set (segments t). plain_segment seg \<and> CHR ''/'' \<notin> set seg"
    using assms segments_no_slash by (auto simp: plain_template_def list_all_iff)
  from exec_template [OF segments_ne this, of p]
  show ?thesis by (auto simp: MatchString_def template_accepts_def dest: list_all2_lengthD)
qed

section \<open>Properties of the dispatch\<close>

lemma first_some_SomeD: "first_some f xs = Some y \<Longrightarrow> \<exists>x\<in>set xs. f x = Some y"
  by (induction xs) (auto split: option.splits)

lemma exec_length: "exec its s = Some caps \<Longrightarrow> length caps = length (group_names its)"
proof (induction its arbitrary: s caps)
  case Nil
  then show ?case by (simp split: if_splits)
next
  case (Cons i its)
  show ?case
  proof (cases i)
    case (Lit c)
    with Cons show ?thesis by (auto split: list.splits if_splits)
  next
    case AnyNotNL
    with Cons show ?thesis by (auto split: list.splits if_splits)
  next
    case (Group n)
    with Cons.prems obtain k where
      "(case exec its (drop k s) of None \<Rightarrow> None | Some cs \<Rightarrow> Some (take k s # cs)) = Some caps"
      by (auto dest: first_some_SomeD)
    then obtain cs where "exec its (drop k s) = Some cs" "caps = take k s # cs"
      by (auto split: option.splits)
    with Cons.IH Group show ?thesis by auto
  qed
qed

lemma extractParams_loop_total:
  "\<forall>x\<in>set xs. fst x < length ms \<Longrightarrow> \<exists>ps'. extractParams_loop xs (Some ms) ps = Inr ps'"
  by (induction xs arbitrary: ps) (auto simp: index_slice_def)

lemma extractParams_total:
  assumes "MatchString re p"
  shows "\<exists>ps. extractParams p re = Inr ps"
proof -
  from assms obtain caps where caps: "exec (items re) p = Some caps"
    by (auto simp: MatchString_def)
  from exec_length [OF this] have "length (SubexpNames re) = length (p # caps)"
    by (simp add: SubexpNames_def)
  then have "\<forall>x\<in>set (enumerate 0 (SubexpNames re)). fst x < length (p # caps)"
    by (auto simp: in_set_enumerate_eq)
  from extractParams_loop_total [OF this] show ?thesis
    by (simp add: extractParams_def FindStringSubmatch_def caps)
qed

lemma route_loop_skip:
  "\<forall>x\<in>set pre. \<not> selects x req \<Longrightarrow>
   route_loop m (pre @ rest) req s = route_loop m rest req s"
  by (induction pre) (auto simp: selects_def)

lemma route_loop_hit:
  "selects route req \<Longrightarrow> extractParams (HTTP_Path req) (Pattern route) = Inr ps \<Longrightarrow>
   route_loop m (route # post) req s =
     (case Handler route req ps s of
        ((data, Some err), s') \<Rightarrow> (Inr (Returned (ErrorResponse err)), s')
      | ((data, None), s') \<Rightarrow> (Inr (Fell (SuccessResponse m data)), s'))"
  by (simp add: selects_def)

lemma route_loop_taken:
  "selects x req \<Longrightarrow>
   route_loop m (pre @ x # rest) req s = route_loop m (pre @ x # rest') req s"
  by (induction pre) (auto simp: selects_def)

lemma route_loop_untaken:
  "\<not> selects x req \<Longrightarrow> \<not> selects x' req \<Longrightarrow>
   route_loop m (pre @ x # rest) req s = route_loop m (pre @ x' # rest) req s"
  by (induction pre) (auto simp: selects_def)

lemma selects_Handler_update: "selects (route\<lparr>Handler := h\<rparr>) req = selects route req"
  by (simp add: selects_def)

lemma route_loop_shadow:
  assumes "Method first = Method second" and "Pattern first = Pattern second"
  shows "route_loop m (pre @ first # mid @ second\<lparr>Handler := h\<rparr> # post) req s
       = route_loop m (pre @ first # mid @ second # post) req s"
proof (cases "selects first req")
  case True
  then show ?thesis by (rule route_loop_taken)
next
  case False
  with assms have "\<not> selects second req" by (simp add: selects_def)
  then have "route_loop m ((pre @ first # mid) @ second\<lparr>Handler := h\<rparr> # post) req s
      = route_loop m ((pre @ first # mid) @ second # post) req s"
    by (intro route_loop_untaken) (simp_all add: selects_Handler_update)
  then show ?thesis by simp
qed

lemma isOriginAllowed_routes:
  "isOriginAllowed (r\<lparr>routes := rs\<rparr>) origin = isOriginAllowed r origin"
  by (simp add: isOriginAllowed_def cong: if_cong)

lemma attachCORSHeaders_routes:
  "attachCORSHeaders (r\<lparr>routes := rs\<rparr>) response req = attachCORSHeaders r response req"
  by (simp add: attachCORSHeaders_def isOriginAllowed_routes Let_def cong: if_cong)

lemma corsPreflightResponse_routes:
  "corsPreflightResponse (r\<lparr>routes := rs\<rparr>) req = corsPreflightResponse r req"
  by (simp add: corsPreflightResponse_def isOriginAllowed_routes Let_def cong: if_cong)

lemma HandleRequest_shadow:
  assumes "Method first = Method second" and "Pattern first = Pattern second"
  shows "HandleRequest m (r\<lparr>routes := pre @ first # mid @ second\<lparr>Handler := h\<rparr> # post\<rparr>) req s
       = HandleRequest m (r\<lparr>routes := pre @ first # mid @ second # post\<rparr>) req s"
  by (simp add: HandleRequest_def route_loop_shadow [OF assms] corsPreflightResponse_routes
      attachCORSHeaders_routes Let_def split: prod.splits sum.splits loop_exit.splits)

lemma HandleRequest_first_match:
  assumes "HTTP_Method req \<noteq> ''OPTIONS''" and "routes r = pre @ route # post"
    and "\<forall>x\<in>set pre. \<not> selects x req" and "selects route req"
    and "extractParams (HTTP_Path req) (Pattern route) = Inr ps"
  shows "HandleRequest m r req s =
     (case Handler route req ps s of
        ((data, Some err), s') \<Rightarrow> (Inr (ErrorResponse err), s')
      | ((data, None), s') \<Rightarrow> (Inr (attachCORSHeaders r (SuccessResponse m data) req), s'))"
proof -
  have "route_loop m (routes r) req s =
     (case Handler route req ps s of
        ((data, Some err), s') \<Rightarrow> (Inr (Returned (ErrorResponse err)), s')
      | ((data, None), s') \<Rightarrow> (Inr (Fell (SuccessResponse m data)), s'))"
    unfolding assms(2) route_loop_skip [OF assms(3)] using assms(4,5) by (rule route_loop_hit)
  moreover have "StatusCode (SuccessResponse m data) \<noteq> 0" for data
    by (simp add: SuccessResponse_def zero_response_def Let_def)
  ultimately show ?thesis using assms(1)
    by (simp add: HandleRequest_def split: prod.splits option.splits)
qed

lemma HandleRequest_no_match:
  assumes "HTTP_Method req \<noteq> ''OPTIONS''" and "\<forall>x\<in>set (routes r). \<not> selects x req"
  shows "HandleRequest m r req s =
     (Inr (attachCORSHeaders r (zero_response\<lparr>StatusCode := 404, Body := ''Route not found''\<rparr>) req), s)"
proof -
  have "route_loop m (routes r) req s = (Inr (Fell zero_response), s)"
    using route_loop_skip [OF assms(2), of m "[]" s] by simp
  then show ?thesis using assms(1) by (simp add: HandleRequest_def zero_response_def)
qed

lemma AddRoute_compiled:
  "AddRoute method path handler r = Inr r' \<Longrightarrow> list_all compiled (routes r) \<Longrightarrow>
   list_all compiled (routes r')"
  by (auto simp: AddRoute_def compiled_def split: sum.splits)

lemma origin_listed_iff: "origin_listed os origin = (origin \<in> set os)"
  by (induction os) auto

lemma parse_items_unnamed:
  "parse_items cs = Inr its \<Longrightarrow> \<forall>n\<in>set (group_names its). n = []"
  by (induction cs arbitrary: its rule: parse_items.induct)
     (auto split: if_splits sum.splits)

lemma extractParams_loop_unnamed:
  "\<forall>x\<in>set xs. snd x = [] \<Longrightarrow> extractParams_loop xs matches ps = Inr ps"
  by (induction xs arbitrary: ps) auto

text \<open>
  Whatever the template, the compiled pattern has no named group, so \<open>extractParams\<close>
  returns the empty map for every path.
\<close>

lemma extractParams_empty:
  assumes "buildPathPattern template = Inr re"
  shows "extractParams path re = Inr Map.empty"
proof -
  from assms obtain its where "re = Regexp its"
    and "parse_items (ReplaceAllString_param template) = Inr its"
    by (auto simp: buildPathPattern_def MustCompile_def split: sum.splits)
  then have "\<forall>n\<in>set (SubexpNames re). n = []"
    using parse_items_unnamed by (auto simp: SubexpNames_def)
  then have "\<forall>x\<in>set (enumerate 0 (SubexpNames re)). snd x = []"
    by (auto simp: in_set_enumerate_eq)
  then show ?thesis unfolding extractParams_def by (rule extractParams_loop_unnamed)
qed

text \<open>Unfolding rules for evaluating the model on concrete routers and requests.\<close>

lemmas regexp_eval = selects_def MatchString_def extractParams_def SubexpNames_def
  FindStringSubmatch_def index_slice_def byte_def Let_def buildPathPattern_def MustCompile_def
  is_meta_def group_tail_def

lemmas envelope_eval = HandleRequest_def corsPreflightResponse_def attachCORSHeaders_def
  isOriginAllowed_def request_origin_def zero_response_def ErrorResponse_def SuccessResponse_def
  NewRouter_def

lemmas template_eval = plain_template_def plain_segment_def plain_char_def is_param_segment_def
  template_accepts_def segment_accepts_def is_meta_def byte_def

section \<open>The claims\<close>

subsection \<open>CORS\<close>

text \<open>
  Claim C10. \<open>attachCORSHeaders\<close> leaves the envelope's status code, body, base-64 flag and
  cookies as they were, and every header other than \<open>Access-Control-Allow-Origin\<close>,
  \<open>Access-Control-Allow-Methods\<close> and \<open>Access-Control-Allow-Headers\<close> keeps its entry (or
  its absence), whatever the router, the envelope and the request.
\<close>

theorem attachCORSHeaders_frame:
  "StatusCode (attachCORSHeaders r response req) = StatusCode response \<and>
   Body (attachCORSHeaders r response req) = Body response \<and>
   IsBase64Encoded (attachCORSHeaders r response req) = IsBase64Encoded response \<and>
   Cookies (attachCORSHeaders r response req) = Cookies response \<and>
   (k \<notin> {''Access-Control-Allow-Origin'', ''Access-Control-Allow-Methods'',
          ''Access-Control-Allow-Headers''} \<longrightarrow>
    header (resp_Headers (attachCORSHeaders r response req)) k = header (resp_Headers response) k)"
  by (simp add: attachCORSHeaders_def header_def Let_def split: option.splits)

text \<open>The frame at a success envelope under the default router: the status and the content type survive.\<close>

theorem attachCORSHeaders_frame_witness:
  "StatusCode (attachCORSHeaders (NewRouter :: (unit, unit) Router)
      (SuccessResponse (\<lambda>u. Some ''null'') ())
      \<lparr>HTTP_Path = ''/a'', HTTP_Method = ''GET'', req_Headers = Map.empty\<rparr>) = 200 \<and>
   header (resp_Headers (attachCORSHeaders (NewRouter :: (unit, unit) Router)
      (SuccessResponse (\<lambda>u. Some ''null'') ())
      \<lparr>HTTP_Path = ''/a'', HTTP_Method = ''GET'', req_Headers = Map.empty\<rparr>)) ''Content-Type''
     = Some ''application/json''"
  using attachCORSHeaders_frame [of "NewRouter :: (unit, unit) Router"
      "SuccessResponse (\<lambda>u. Some ''null'') ()"
      "\<lparr>HTTP_Path = ''/a'', HTTP_Method = ''GET'', req_Headers = Map.empty\<rparr>" "''Content-Type''"]
  by (simp add: SuccessResponse_def zero_response_def header_def)

text \<open>
  Claim C9. \<open>isOriginAllowed\<close> allows every origin exactly when \<open>Origins\<close> is the
  one-element list \<open>["*"]\<close>. With two or more entries an entry \<open>"*"\<close> is compared like any
  other: an origin is allowed if and only if it equals one of the entries.
\<close>

theorem isOriginAllowed_wildcard:
  "(Origins r = [''*''] \<longrightarrow> isOriginAllowed r origin) \<and>
   (2 \<le> length (Origins r) \<longrightarrow> isOriginAllowed r origin = (origin \<in> set (Origins r))) \<and>
   ((\<forall>any. isOriginAllowed r any) = (Origins r = [''*'']))"
proof (intro conjI impI)
  assume "Origins r = [''*'']"
  then show "isOriginAllowed r origin" by (simp add: isOriginAllowed_def)
next
  assume "2 \<le> length (Origins r)"
  then show "isOriginAllowed r origin = (origin \<in> set (Origins r))"
    by (simp add: isOriginAllowed_def origin_listed_iff)
next
  show "(\<forall>any. isOriginAllowed r any) = (Origins r = [''*''])"
  proof
    assume all: "\<forall>any. isOriginAllowed r any"
    have "infinite (UNIV :: string set)" by (rule infinite_UNIV_listI)
    then obtain fresh where fresh: "fresh \<notin> set (Origins r)"
      using ex_new_if_finite [of "set (Origins r)"] by auto
    from all have "isOriginAllowed r fresh" by blast
    with fresh show "Origins r = [''*'']"
      by (cases "Origins r") (auto simp: isOriginAllowed_def origin_listed_iff split: if_splits)
  next
    assume "Origins r = [''*'']"
    then show "\<forall>any. isOriginAllowed r any" by (simp add: isOriginAllowed_def)
  qed
qed

text \<open>The default router allows any origin; a two-entry list that holds \<open>"*"\<close> allows only its entries.\<close>

theorem isOriginAllowed_wildcard_witness:
  "isOriginAllowed ((NewRouter :: (unit, unit) Router)) ''https://evil.com'' \<and>
   \<not> isOriginAllowed ((NewRouter :: (unit, unit) Router)\<lparr>Origins := [''*'', ''https://example.com'']\<rparr>)
       ''https://evil.com'' \<and>
   isOriginAllowed ((NewRouter :: (unit, unit) Router)\<lparr>Origins := [''*'', ''https://example.com'']\<rparr>) ''*''"
  using isOriginAllowed_wildcard [of "NewRouter :: (unit, unit) Router" "''https://evil.com''"]
    isOriginAllowed_wildcard [of "(NewRouter :: (unit, unit) Router)\<lparr>Origins := [''*'', ''https://example.com'']\<rparr>" "''https://evil.com''"]
    isOriginAllowed_wildcard [of "(NewRouter :: (unit, unit) Router)\<lparr>Origins := [''*'', ''https://example.com'']\<rparr>" "''*''"]
  by (simp add: NewRouter_def)

text \<open>
  Claim C7. A request whose method is \<open>OPTIONS\<close> is answered from the CORS configuration
  and the request's \<open>origin\<close> header alone: 403 with body \<open>Origin not allowed\<close> and no
  headers when the origin is not allowed, otherwise 200 with the origin echoed and the
  configured methods and headers joined by a comma and a space. The state comes back
  unchanged whatever the handlers are, so no handler ran, and any other router with the
  same three lists, with any routes, gives any other \<open>OPTIONS\<close> request with the same
  origin the same envelope.
\<close>

theorem preflight_by_policy_alone:
  "(HTTP_Method req = ''OPTIONS'' \<longrightarrow>
      HandleRequest json_Marshal r req s =
        (Inr (if isOriginAllowed r (request_origin req)
              then \<lparr>StatusCode = 200,
                    resp_Headers = Some (Map.empty
                      (''Access-Control-Allow-Origin'' \<mapsto> request_origin req,
                       ''Access-Control-Allow-Methods'' \<mapsto> Join (Methods r) '', '',
                       ''Access-Control-Allow-Headers'' \<mapsto> Join (Headers r) '', '')),
                    Body = [], IsBase64Encoded = False, Cookies = []\<rparr>
              else \<lparr>StatusCode = 403, resp_Headers = None, Body = ''Origin not allowed'',
                    IsBase64Encoded = False, Cookies = []\<rparr>), s)) \<and>
   (HTTP_Method req = ''OPTIONS'' \<and> HTTP_Method req' = ''OPTIONS'' \<and>
    request_origin req' = request_origin req \<and>
    Origins r' = Origins r \<and> Methods r' = Methods r \<and> Headers r' = Headers r \<longrightarrow>
      fst (HandleRequest json_Marshal' r' req' s') = fst (HandleRequest json_Marshal r req s))"
  by (simp add: HandleRequest_def corsPreflightResponse_def zero_response_def Let_def
      isOriginAllowed_def)

text \<open>
  The configuration of the README, with a route that would match: a foreign origin is
  refused, the configured one is echoed, and a router without routes answers alike.
\<close>

theorem preflight_by_policy_alone_witness:
  "HandleRequest Some
     \<lparr>routes = [\<lparr>Method = ''OPTIONS'', Pattern = Regexp (map Lit ''/users''),
                 Handler = (\<lambda>req params s. ((''never'', None), Suc s)), Template = ''/users''\<rparr>],
      Origins = [''https://example.com''], Methods = [''GET'', ''POST''],
      Headers = [''Content-Type'']\<rparr>
     \<lparr>HTTP_Path = ''/users'', HTTP_Method = ''OPTIONS'',
      req_Headers = [''origin'' \<mapsto> ''https://evil.com'']\<rparr> (0::nat)
   = (Inr \<lparr>StatusCode = 403, resp_Headers = None, Body = ''Origin not allowed'',
           IsBase64Encoded = False, Cookies = []\<rparr>, 0) \<and>
   HandleRequest Some
     \<lparr>routes = [\<lparr>Method = ''OPTIONS'', Pattern = Regexp (map Lit ''/users''),
                 Handler = (\<lambda>req params s. ((''never'', None), Suc s)), Template = ''/users''\<rparr>],
      Origins = [''https://example.com''], Methods = [''GET'', ''POST''],
      Headers = [''Content-Type'']\<rparr>
     \<lparr>HTTP_Path = ''/users'', HTTP_Method = ''OPTIONS'',
      req_Headers = [''origin'' \<mapsto> ''https://example.com'']\<rparr> (0::nat)
   = (Inr \<lparr>StatusCode = 200,
           resp_Headers = Some
             [''Access-Control-Allow-Origin'' \<mapsto> ''https://example.com'',
              ''Access-Control-Allow-Methods'' \<mapsto> ''GET, POST'',
              ''Access-Control-Allow-Headers'' \<mapsto> ''Content-Type''],
           Body = [], IsBase64Encoded = False, Cookies = []\<rparr>, 0) \<and>
   fst (HandleRequest (\<lambda>u. None)
     \<lparr>routes = [], Origins = [''https://example.com''], Methods = [''GET'', ''POST''],
      Headers = [''Content-Type'']\<rparr>
     \<lparr>HTTP_Path = ''/nowhere'', HTTP_Method = ''OPTIONS'',
      req_Headers = [''origin'' \<mapsto> ''https://example.com'']\<rparr> ())
   = fst (HandleRequest Some
     \<lparr>routes = [\<lparr>Method = ''OPTIONS'', Pattern = Regexp (map Lit ''/users''),
                 Handler = (\<lambda>req params s. ((''never'', None), Suc s)), Template = ''/users''\<rparr>],
      Origins = [''https://example.com''], Methods = [''GET'', ''POST''],
      Headers = [''Content-Type'']\<rparr>
     \<lparr>HTTP_Path = ''/users'', HTTP_Method = ''OPTIONS'',
      req_Headers = [''origin'' \<mapsto> ''https://example.com'']\<rparr> (0::nat))"
  using preflight_by_policy_alone [of
      "\<lparr>HTTP_Path = ''/users'', HTTP_Method = ''OPTIONS'',
      req_Headers = [''origin'' \<mapsto> ''https://evil.com'']\<rparr>"
      Some
      "\<lparr>routes = [\<lparr>Method = ''OPTIONS'', Pattern = Regexp (map Lit ''/users''),
                 Handler = (\<lambda>req params s. ((''never'', None), Suc s)), Template = ''/users''\<rparr>],
      Origins = [''https://example.com''], Methods = [''GET'', ''POST''],
      Headers = [''Content-Type'']\<rparr>"
      "0::nat"
      "\<lparr>HTTP_Path = ''/users'', HTTP_Method = ''OPTIONS'',
      req_Headers = [''origin'' \<mapsto> ''https://evil.com'']\<rparr>"
      "\<lparr>routes = [\<lparr>Method = ''OPTIONS'', Pattern = Regexp (map Lit ''/users''),
                 Handler = (\<lambda>req params s. ((''never'', None), Suc s)), Template = ''/users''\<rparr>],
      Origins = [''https://example.com''], Methods = [''GET'', ''POST''],
      Headers = [''Content-Type'']\<rparr>"
      Some "0::nat"]
    preflight_by_policy_alone [of
      "\<lparr>HTTP_Path = ''/users'', HTTP_Method = ''OPTIONS'',
      req_Headers = [''origin'' \<mapsto> ''https://example.com'']\<rparr>"
      Some
      "\<lparr>routes = [\<lparr>Method = ''OPTIONS'', Pattern = Regexp (map Lit ''/users''),
                 Handler = (\<lambda>req params s. ((''never'', None), Suc s)), Template = ''/users''\<rparr>],
      Origins = [''https://example.com''], Methods = [''GET'', ''POST''],
      Headers = [''Content-Type'']\<rparr>"
      "0::nat"
      "\<lparr>HTTP_Path = ''/nowhere'', HTTP_Method = ''OPTIONS'',
      req_Headers = [''origin'' \<mapsto> ''https://example.com'']\<rparr>"
      "\<lparr>routes = [], Origins = [''https://example.com''], Methods = [''GET'', ''POST''],
      Headers = [''Content-Type'']\<rparr>"
      "\<lambda>u. None" "()"]
  by (simp add: isOriginAllowed_def request_origin_def)

subsection \<open>Dispatch\<close>

text \<open>
  Claim C6. The table is scanned in registration order: when no route before \<open>route\<close>
  is selected and \<open>route\<close> is, the request is answered by the handler of \<open>route\<close>. And
  when two routes registered by \<open>AddRoute\<close> have the same method and template, no request
  is ever answered differently, nor any state left differently, for a change of the
  second one's handler: it is never invoked.
\<close>

theorem first_match_and_shadowing:
  "(HTTP_Method req \<noteq> ''OPTIONS'' \<and> routes r = pre @ route # post \<and>
    (\<forall>x\<in>set pre. \<not> selects x req) \<and> selects route req \<longrightarrow>
      (\<exists>params. extractParams (HTTP_Path req) (Pattern route) = Inr params \<and>
         HandleRequest json_Marshal r req s =
           (case Handler route req params s of
              ((data, Some err), s') \<Rightarrow> (Inr (ErrorResponse err), s')
            | ((data, None), s') \<Rightarrow>
                (Inr (attachCORSHeaders r (SuccessResponse json_Marshal data) req), s')))) \<and>
   (compiled first \<and> compiled second \<and> Method first = Method second \<and>
    Template first = Template second \<longrightarrow>
      HandleRequest json_Marshal
        (r\<lparr>routes := before @ first # mid @ second\<lparr>Handler := h\<rparr> # rest\<rparr>) req s
      = HandleRequest json_Marshal
        (r\<lparr>routes := before @ first # mid @ second # rest\<rparr>) req s)"
proof (intro conjI impI)
  assume a: "HTTP_Method req \<noteq> ''OPTIONS'' \<and> routes r = pre @ route # post \<and>
    (\<forall>x\<in>set pre. \<not> selects x req) \<and> selects route req"
  then have "MatchString (Pattern route) (HTTP_Path req)" by (simp add: selects_def)
  from extractParams_total [OF this]
  obtain ps where ps: "extractParams (HTTP_Path req) (Pattern route) = Inr ps" by blast
  from a have a1: "HTTP_Method req \<noteq> ''OPTIONS''" and a2: "routes r = pre @ route # post"
    and a3: "\<forall>x\<in>set pre. \<not> selects x req" and a4: "selects route req"
    by blast+
  from HandleRequest_first_match [OF a1 a2 a3 a4 ps] ps show "\<exists>params. extractParams (HTTP_Path req) (Pattern route) = Inr params \<and>
         HandleRequest json_Marshal r req s =
           (case Handler route req params s of
              ((data, Some err), s') \<Rightarrow> (Inr (ErrorResponse err), s')
            | ((data, None), s') \<Rightarrow>
                (Inr (attachCORSHeaders r (SuccessResponse json_Marshal data) req), s'))"
    by blast
next
  assume "compiled first \<and> compiled second \<and> Method first = Method second \<and>
    Template first = Template second"
  then have "Method first = Method second" and "Pattern first = Pattern second"
    by (auto simp: compiled_def)
  then show "HandleRequest json_Marshal
        (r\<lparr>routes := before @ first # mid @ second\<lparr>Handler := h\<rparr> # rest\<rparr>) req s
      = HandleRequest json_Marshal
        (r\<lparr>routes := before @ first # mid @ second # rest\<rparr>) req s"
    by (rule HandleRequest_shadow)
qed

text \<open>
  \<open>GET /a\<close> registered twice: the first handler answers, and replacing the second one
  changes nothing.
\<close>

theorem first_match_and_shadowing_witness:
  "HandleRequest Some
     \<lparr>routes =
        [\<lparr>Method = ''GET'', Pattern = Regexp (map Lit ''/a''),
          Handler = (\<lambda>req params s. ((''first'', None), 1)), Template = ''/a''\<rparr>,
         \<lparr>Method = ''GET'', Pattern = Regexp (map Lit ''/a''),
          Handler = (\<lambda>req params s. ((''second'', None), 2)), Template = ''/a''\<rparr>],
      Origins = [''*''], Methods = [''*''], Headers = [''*'']\<rparr>
     \<lparr>HTTP_Path = ''/a'', HTTP_Method = ''GET'', req_Headers = Map.empty\<rparr> (0::nat)
   = (Inr \<lparr>StatusCode = 200,
           resp_Headers = Some
             [''Content-Type'' \<mapsto> ''application/json'',
              ''Access-Control-Allow-Origin'' \<mapsto> ''*'',
              ''Access-Control-Allow-Methods'' \<mapsto> ''*'',
              ''Access-Control-Allow-Headers'' \<mapsto> ''*''],
           Body = ''first'', IsBase64Encoded = False, Cookies = []\<rparr>, 1) \<and>
   HandleRequest Some
     \<lparr>routes =
        [\<lparr>Method = ''GET'', Pattern = Regexp (map Lit ''/a''),
          Handler = (\<lambda>req params s. ((''first'', None), 1)), Template = ''/a''\<rparr>,
         \<lparr>Method = ''GET'', Pattern = Regexp (map Lit ''/a''),
          Handler = (\<lambda>req params s. ((''third'', None), 3)), Template = ''/a''\<rparr>],
      Origins = [''*''], Methods = [''*''], Headers = [''*'']\<rparr>
     \<lparr>HTTP_Path = ''/a'', HTTP_Method = ''GET'', req_Headers = Map.empty\<rparr> (0::nat)
   = HandleRequest Some
     \<lparr>routes =
        [\<lparr>Method = ''GET'', Pattern = Regexp (map Lit ''/a''),
          Handler = (\<lambda>req params s. ((''first'', None), 1)), Template = ''/a''\<rparr>,
         \<lparr>Method = ''GET'', Pattern = Regexp (map Lit ''/a''),
          Handler = (\<lambda>req params s. ((''second'', None), 2)), Template = ''/a''\<rparr>],
      Origins = [''*''], Methods = [''*''], Headers = [''*'']\<rparr>
     \<lparr>HTTP_Path = ''/a'', HTTP_Method = ''GET'', req_Headers = Map.empty\<rparr> (0::nat)"
proof -
  let ?one = "\<lparr>Method = ''GET'', Pattern = Regexp (map Lit ''/a''),
          Handler = (\<lambda>req params s. ((''first'', None), 1)), Template = ''/a''\<rparr>
          :: (string, nat) Route"
  let ?two = "\<lparr>Method = ''GET'', Pattern = Regexp (map Lit ''/a''),
          Handler = (\<lambda>req params s. ((''second'', None), 2)), Template = ''/a''\<rparr>
          :: (string, nat) Route"
  let ?r = "\<lparr>routes = [?one, ?two], Origins = [''*''], Methods = [''*''], Headers = [''*'']\<rparr>"
  let ?req = "\<lparr>HTTP_Path = ''/a'', HTTP_Method = ''GET'', req_Headers = Map.empty\<rparr>"
  have hyp1: "HTTP_Method ?req \<noteq> ''OPTIONS'' \<and> routes ?r = [] @ ?one # [?two] \<and>
      (\<forall>x\<in>set []. \<not> selects x ?req) \<and> selects ?one ?req"
    by (simp add: regexp_eval)
  have hyp2: "compiled ?one \<and> compiled ?two \<and> Method ?one = Method ?two \<and>
      Template ?one = Template ?two"
    by (simp add: compiled_def regexp_eval)
  from first_match_and_shadowing [where req = ?req and r = ?r and pre = "[]" and route = ?one
      and post = "[?two]" and json_Marshal = Some and s = 0 and first = ?one and second = ?two
      and before = "[]" and mid = "[]" and rest = "[]"
      and h = "\<lambda>req params s. ((''third'', None), 3)"]
  have "(\<exists>params. extractParams (HTTP_Path ?req) (Pattern ?one) = Inr params \<and>
         HandleRequest Some ?r ?req 0 =
           (case Handler ?one ?req params 0 of
              ((data, Some err), s') \<Rightarrow> (Inr (ErrorResponse err), s')
            | ((data, None), s') \<Rightarrow>
                (Inr (attachCORSHeaders ?r (SuccessResponse Some data) ?req), s')))"
    and "HandleRequest Some
        (?r\<lparr>routes := [] @ ?one # [] @ ?two\<lparr>Handler := \<lambda>req params s. ((''third'', None), 3)\<rparr> # []\<rparr>) ?req 0
      = HandleRequest Some (?r\<lparr>routes := [] @ ?one # [] @ ?two # []\<rparr>) ?req 0"
    using hyp1 hyp2 by blast+
  then show ?thesis
    by (auto simp: attachCORSHeaders_def SuccessResponse_def zero_response_def request_origin_def
        isOriginAllowed_def)
qed

text \<open>
  Claim C8. When the handler of the selected route returns an error with code \<open>c\<close> and
  message \<open>m\<close>, the envelope has status \<open>c\<close> and body \<open>Error: m\<close>.
\<close>

theorem handler_error_envelope:
  assumes "HTTP_Method req \<noteq> ''OPTIONS''" and "routes r = pre @ route # post"
    and "\<forall>x\<in>set pre. \<not> selects x req" and "selects route req"
  shows "\<exists>params. extractParams (HTTP_Path req) (Pattern route) = Inr params \<and>
    (\<forall>data err s'. Handler route req params s = ((data, Some err), s') \<longrightarrow>
       HandleRequest json_Marshal r req s =
         (Inr \<lparr>StatusCode = CodeValue err, resp_Headers = None,
               Body = ''Error: '' @ MessageValue err,
               IsBase64Encoded = False, Cookies = []\<rparr>, s'))"
proof -
  from assms(4) obtain ps where ps: "extractParams (HTTP_Path req) (Pattern route) = Inr ps"
    using extractParams_total by (auto simp: selects_def)
  show ?thesis
    using HandleRequest_first_match [OF assms ps, of json_Marshal s] ps
    by (auto simp: ErrorResponse_def zero_response_def)
qed

text \<open>
  The error \<open>{code: 404, message: "not found"}\<close> gives status 404 and body
  \<open>Error: not found\<close>.
\<close>

theorem handler_error_envelope_witness:
  "HandleRequest Some
     \<lparr>routes =
        [\<lparr>Method = ''GET'', Pattern = Regexp (map Lit ''/health''),
          Handler = (\<lambda>req params s. ((''ok'', None), s)), Template = ''/health''\<rparr>,
         \<lparr>Method = ''GET'', Pattern = Regexp (map Lit ''/items/'' @ [Group []]),
          Handler = (\<lambda>req params s.
            (([], Some \<lparr>CodeValue = 404, MessageValue = ''not found''\<rparr>), Suc s)),
          Template = ''/items/:id''\<rparr>],
      Origins = [''*''], Methods = [''*''], Headers = [''*'']\<rparr>
     \<lparr>HTTP_Path = ''/items/7'', HTTP_Method = ''GET'',
      req_Headers = [''origin'' \<mapsto> ''https://example.com'']\<rparr> (0::nat)
   = (Inr \<lparr>StatusCode = 404, resp_Headers = None, Body = ''Error: not found'',
           IsBase64Encoded = False, Cookies = []\<rparr>, Suc 0)"
proof -
  let ?health = "\<lparr>Method = ''GET'', Pattern = Regexp (map Lit ''/health''),
          Handler = (\<lambda>req params s. ((''ok'', None), s)), Template = ''/health''\<rparr>
          :: (string, nat) Route"
  let ?item = "\<lparr>Method = ''GET'', Pattern = Regexp (map Lit ''/items/'' @ [Group []]),
          Handler = (\<lambda>req params s.
            (([], Some \<lparr>CodeValue = 404, MessageValue = ''not found''\<rparr>), Suc s)),
          Template = ''/items/:id''\<rparr> :: (string, nat) Route"
  let ?r = "\<lparr>routes = [?health, ?item],
      Origins = [''*''], Methods = [''*''], Headers = [''*'']\<rparr>"
  let ?req = "\<lparr>HTTP_Path = ''/items/7'', HTTP_Method = ''GET'',
      req_Headers = [''origin'' \<mapsto> ''https://example.com'']\<rparr>"
  have 1: "HTTP_Method ?req \<noteq> ''OPTIONS''" by simp
  have 2: "routes ?r = [?health] @ ?item # []" by simp
  have 3: "\<forall>x\<in>set [?health]. \<not> selects x ?req" by (simp add: regexp_eval)
  have 4: "selects ?item ?req" by (simp add: regexp_eval)
  from handler_error_envelope [OF 1 2 3 4, of 0 Some]
  show ?thesis by auto
qed

text \<open>
  Claim C4, amended. For every method other than \<open>OPTIONS\<close> and every path, when no
  registered route has that method and a matcher that accepts the path, \<open>HandleRequest\<close>
  returns an envelope with status 404 and body \<open>Route not found\<close>.
\<close>

theorem not_found_envelope:
  assumes "HTTP_Method req \<noteq> ''OPTIONS''" and "\<forall>x\<in>set (routes r). \<not> selects x req"
  shows "HandleRequest json_Marshal r req s =
      (Inr (attachCORSHeaders r
         \<lparr>StatusCode = 404, resp_Headers = None, Body = ''Route not found'',
          IsBase64Encoded = False, Cookies = []\<rparr> req), s) \<and>
    StatusCode (attachCORSHeaders r
         \<lparr>StatusCode = 404, resp_Headers = None, Body = ''Route not found'',
          IsBase64Encoded = False, Cookies = []\<rparr> req) = 404 \<and>
    Body (attachCORSHeaders r
         \<lparr>StatusCode = 404, resp_Headers = None, Body = ''Route not found'',
          IsBase64Encoded = False, Cookies = []\<rparr> req) = ''Route not found''"
  using HandleRequest_no_match [OF assms, of json_Marshal s]
  by (simp add: zero_response_def attachCORSHeaders_def Let_def)

text \<open>
  \<open>POST /users\<close> on a table that only has \<open>GET /users\<close>.
\<close>

theorem not_found_envelope_witness:
  "HandleRequest Some
     \<lparr>routes =
        [\<lparr>Method = ''GET'', Pattern = Regexp (map Lit ''/users''),
          Handler = (\<lambda>req params s. ((''users'', None), Suc s)), Template = ''/users''\<rparr>],
      Origins = [''*''], Methods = [''*''], Headers = [''*'']\<rparr>
     \<lparr>HTTP_Path = ''/users'', HTTP_Method = ''POST'', req_Headers = Map.empty\<rparr> (0::nat)
   = (Inr \<lparr>StatusCode = 404,
           resp_Headers = Some
             [''Access-Control-Allow-Origin'' \<mapsto> ''*'',
              ''Access-Control-Allow-Methods'' \<mapsto> ''*'',
              ''Access-Control-Allow-Headers'' \<mapsto> ''*''],
           Body = ''Route not found'', IsBase64Encoded = False, Cookies = []\<rparr>, 0)"
proof -
  let ?users = "\<lparr>Method = ''GET'', Pattern = Regexp (map Lit ''/users''),
          Handler = (\<lambda>req params s. ((''users'', None), Suc s)), Template = ''/users''\<rparr>
          :: (string, nat) Route"
  let ?r = "\<lparr>routes = [?users], Origins = [''*''], Methods = [''*''], Headers = [''*'']\<rparr>"
  let ?req = "\<lparr>HTTP_Path = ''/users'', HTTP_Method = ''POST'', req_Headers = Map.empty\<rparr>"
  have 1: "HTTP_Method ?req \<noteq> ''OPTIONS''" by simp
  have 2: "\<forall>x\<in>set (routes ?r). \<not> selects x ?req" by (simp add: selects_def)
  from not_found_envelope [OF 1 2, of Some 0]
  show ?thesis by (simp add: attachCORSHeaders_def request_origin_def)
qed

text \<open>
  The claim as stated, for every method, fails at \<open>OPTIONS\<close>: on a router without
  routes the preflight branch answers 200.
\<close>

theorem options_is_never_not_found:
  "(case fst (HandleRequest (\<lambda>u. None) (NewRouter :: (unit, unit) Router)
        \<lparr>HTTP_Path = ''/nowhere'', HTTP_Method = ''OPTIONS'', req_Headers = Map.empty\<rparr> ()) of
      Inl e \<Rightarrow> False
    | Inr response \<Rightarrow>
        StatusCode response = 200 \<and> Body response = [] \<and>
        StatusCode response \<noteq> 404 \<and> Body response \<noteq> ''Route not found'') \<and>
   list_all (\<lambda>route. \<not> selects route
        \<lparr>HTTP_Path = ''/nowhere'', HTTP_Method = ''OPTIONS'', req_Headers = Map.empty\<rparr>)
     (routes (NewRouter :: (unit, unit) Router))"
  by (simp add: envelope_eval)

text \<open>
  Claim C3, amended. When \<open>json.Marshal\<close> fails on the value that the selected
  route's handler returned, \<open>HandleRequest\<close> returns status 200 with an empty body and
  \<open>Content-Type: application/json\<close>, with the CORS headers attached: the error of
  \<open>json.Marshal\<close> is dropped.
\<close>

theorem serialization_failure_envelope:
  assumes "HTTP_Method req \<noteq> ''OPTIONS''" and "routes r = pre @ route # post"
    and "\<forall>x\<in>set pre. \<not> selects x req" and "selects route req"
    and "json_Marshal data = None"
  shows "\<exists>params. extractParams (HTTP_Path req) (Pattern route) = Inr params \<and>
    (\<forall>s'. Handler route req params s = ((data, None), s') \<longrightarrow>
       HandleRequest json_Marshal r req s =
         (Inr (attachCORSHeaders r
            \<lparr>StatusCode = 200,
             resp_Headers = Some [''Content-Type'' \<mapsto> ''application/json''],
             Body = [], IsBase64Encoded = False, Cookies = []\<rparr> req), s') \<and>
       StatusCode (attachCORSHeaders r
            \<lparr>StatusCode = 200,
             resp_Headers = Some [''Content-Type'' \<mapsto> ''application/json''],
             Body = [], IsBase64Encoded = False, Cookies = []\<rparr> req) = 200 \<and>
       Body (attachCORSHeaders r
            \<lparr>StatusCode = 200,
             resp_Headers = Some [''Content-Type'' \<mapsto> ''application/json''],
             Body = [], IsBase64Encoded = False, Cookies = []\<rparr> req) = [])"
proof -
  from assms(4) have "MatchString (Pattern route) (HTTP_Path req)" by (simp add: selects_def)
  from extractParams_total [OF this]
  obtain ps where ps: "extractParams (HTTP_Path req) (Pattern route) = Inr ps" by blast
  show ?thesis
    using HandleRequest_first_match [OF assms(1-4) ps, of json_Marshal s] ps assms(5)
    by (auto simp: SuccessResponse_def zero_response_def attachCORSHeaders_def Let_def)
qed

text \<open>
  A handler whose value cannot be serialized.
\<close>

theorem serialization_failure_envelope_witness:
  "HandleRequest (\<lambda>u. None)
     \<lparr>routes =
        [\<lparr>Method = ''GET'', Pattern = Regexp (map Lit ''/a''),
          Handler = (\<lambda>req params s. (((), None), Suc s)), Template = ''/a''\<rparr>],
      Origins = [''*''], Methods = [''*''], Headers = [''*'']\<rparr>
     \<lparr>HTTP_Path = ''/a'', HTTP_Method = ''GET'', req_Headers = Map.empty\<rparr> (0::nat)
   = (Inr \<lparr>StatusCode = 200,
           resp_Headers = Some
             [''Content-Type'' \<mapsto> ''application/json'',
              ''Access-Control-Allow-Origin'' \<mapsto> ''*'',
              ''Access-Control-Allow-Methods'' \<mapsto> ''*'',
              ''Access-Control-Allow-Headers'' \<mapsto> ''*''],
           Body = [], IsBase64Encoded = False, Cookies = []\<rparr>, Suc 0)"
proof -
  let ?a = "\<lparr>Method = ''GET'', Pattern = Regexp (map Lit ''/a''),
          Handler = (\<lambda>req params s. (((), None), Suc s)), Template = ''/a''\<rparr>
          :: (unit, nat) Route"
  let ?r = "\<lparr>routes = [?a], Origins = [''*''], Methods = [''*''], Headers = [''*'']\<rparr>"
  let ?req = "\<lparr>HTTP_Path = ''/a'', HTTP_Method = ''GET'', req_Headers = Map.empty\<rparr>"
  have 1: "HTTP_Method ?req \<noteq> ''OPTIONS''" by simp
  have 2: "routes ?r = [] @ ?a # []" by simp
  have 3: "\<forall>x\<in>set []. \<not> selects x ?req" by simp
  have 4: "selects ?a ?req" by (simp add: regexp_eval)
  have 5: "(\<lambda>u::unit. None :: string option) () = None" by simp
  from serialization_failure_envelope [OF 1 2 3 4 5, of 0]
  show ?thesis
    by (auto simp: attachCORSHeaders_def request_origin_def isOriginAllowed_def)
qed

text \<open>
  The claim as stated fails there: the status is 200, not 500.
\<close>

theorem serialization_failure_is_not_500:
  "(case fst (HandleRequest (\<lambda>u. None)
       \<lparr>routes =
          [\<lparr>Method = ''GET'', Pattern = Regexp (map Lit ''/a''),
            Handler = (\<lambda>req params s. (((), None), Suc s)), Template = ''/a''\<rparr>],
        Origins = [''*''], Methods = [''*''], Headers = [''*'']\<rparr>
       \<lparr>HTTP_Path = ''/a'', HTTP_Method = ''GET'', req_Headers = Map.empty\<rparr> (0::nat)) of
     Inl e \<Rightarrow> False
   | Inr response \<Rightarrow>
       StatusCode response = 200 \<and> Body response = [] \<and> StatusCode response \<noteq> 500)"
  by (simp add: envelope_eval regexp_eval)

text \<open>
  Claim C2. \<open>GET /a\<close> is registered with a handler that returns an error, and the
  request carries an allowed origin: the envelope that \<open>HandleRequest\<close> returns has no
  headers at all, since the error branch returns before \<open>attachCORSHeaders\<close>.
\<close>

theorem handler_error_has_no_cors_headers:
  "(case Get ''/a''
      (\<lambda>req params s. (([], Some \<lparr>CodeValue = 500, MessageValue = ''boom''\<rparr>), s)) NewRouter of
      Inl e \<Rightarrow> False
    | Inr r \<Rightarrow>
        HandleRequest Some r
          \<lparr>HTTP_Path = ''/a'', HTTP_Method = ''GET'',
           req_Headers = [''origin'' \<mapsto> ''https://example.com'']\<rparr> ()
        = (Inr \<lparr>StatusCode = 500, resp_Headers = None, Body = ''Error: boom'',
                IsBase64Encoded = False, Cookies = []\<rparr>, ()))"
  by (simp add: regexp_eval envelope_eval Get_def AddRoute_def)

subsection \<open>Templates and parameters\<close>

text \<open>
  Claim C5, amended. For every plain template (each segment either a colon followed by
  a name, or ASCII characters that are literals to \<open>regexp\<close>, without a colon) the
  template compiles, and its matcher accepts a path if and only if the path has as many
  segments as the template, every literal segment equals the path's segment, and every
  parameter segment faces a non-empty segment. The whole path is matched, never a proper
  prefix.
\<close>

theorem plain_template_matcher:
  assumes "plain_template template"
  shows "\<exists>re. buildPathPattern template = Inr re \<and>
    (\<forall>path. MatchString re path = template_accepts template path)"
  using plain_template_compiles [OF assms] plain_template_matches [OF assms] by simp

text \<open>
  \<open>/users/:id\<close> is plain; its matcher accepts \<open>/users/42\<close> and refuses longer, shorter
  and different paths.
\<close>

theorem plain_template_matcher_witness:
  "plain_template ''/users/:id'' \<and>
   (\<exists>re. buildPathPattern ''/users/:id'' = Inr re \<and>
      MatchString re ''/users/42'' \<and> \<not> MatchString re ''/users/42/x'' \<and>
      \<not> MatchString re ''/users/'' \<and> \<not> MatchString re ''/user/42'' \<and>
      \<not> MatchString re ''/users/42/'')"
proof -
  have p: "plain_template ''/users/:id''" by (simp add: template_eval)
  from plain_template_matcher [OF p]
  obtain re where re: "buildPathPattern ''/users/:id'' = Inr re"
    and m: "\<And>path. MatchString re path = template_accepts ''/users/:id'' path" by blast
  have "MatchString re ''/users/42''" "\<not> MatchString re ''/users/42/x''"
    "\<not> MatchString re ''/users/''" "\<not> MatchString re ''/user/42''"
    "\<not> MatchString re ''/users/42/''"
    unfolding m by (simp_all add: template_eval)
  with p re show ?thesis by blast
qed

text \<open>
  The claim as stated, for every template, fails: the template is compiled unescaped,
  so the dot of \<open>/a.b\<close> accepts \<open>/axb\<close>, and a colon inside a segment starts a group, so
  \<open>/a:b\<close> accepts \<open>/axy\<close>.
\<close>

theorem unescaped_templates_accept_more:
  "(case buildPathPattern ''/a.b'' of Inl e \<Rightarrow> False | Inr re \<Rightarrow> MatchString re ''/axb'') \<and>
   \<not> template_accepts ''/a.b'' ''/axb'' \<and>
   (case buildPathPattern ''/a:b'' of Inl e \<Rightarrow> False | Inr re \<Rightarrow> MatchString re ''/axy'') \<and>
   \<not> template_accepts ''/a:b'' ''/axy''"
  by (simp add: regexp_eval template_eval)

text \<open>
  Claim C1. \<open>GET /users/:id\<close> is registered and \<open>GET /users/42\<close> is requested: the pattern
  matches and captures \<open>42\<close>, but its group has no name, so \<open>extractParams\<close> returns the
  empty map and the handler finds no entry for \<open>id\<close>.
\<close>

theorem params_are_never_bound:
  "buildPathPattern ''/users/:id'' = Inr (Regexp (map Lit ''/users/'' @ [Group []])) \<and>
   SubexpNames (Regexp (map Lit ''/users/'' @ [Group []])) = [[], []] \<and>
   FindStringSubmatch (Regexp (map Lit ''/users/'' @ [Group []])) ''/users/42''
     = Some [''/users/42'', ''42''] \<and>
   extractParams ''/users/42'' (Regexp (map Lit ''/users/'' @ [Group []])) = Inr Map.empty \<and>
   (case Get ''/users/:id'' (\<lambda>req params s. ((''user'', None), Some (params ''id''))) NewRouter of
      Inl e \<Rightarrow> False
    | Inr r \<Rightarrow>
        snd (HandleRequest Some r
          \<lparr>HTTP_Path = ''/users/42'', HTTP_Method = ''GET'', req_Headers = Map.empty\<rparr> None)
        = Some None)"
  by (simp add: regexp_eval envelope_eval Get_def AddRoute_def)

end
